theory Spec2Isabelle
  imports Main "HOL-Library.Sublist"
begin

section \<open>The post repository of the blog (lib/post.ts)\<close>

text \<open>
  The module reads Markdown files from the folder \<open>_posts\<close>, splits their front-matter
  with the library gray-matter and renders the body with a unified processor. The file
  system, gray-matter and unified are not code of the module: the file system is a state
  that the operations read, the two libraries are parameters of the model.
\<close>

subsection \<open>Values, errors and the file system\<close>

text \<open>Front-matter values are arbitrary YAML scalars; objects are maps from keys.\<close>

datatype jsvalue = JString string | JNumber int | JBool bool | JNull

type_synonym object = "string \<rightharpoonup> jsvalue"

datatype errno = ENOENT | EACCES | EISDIR | EIO

text \<open>
  What a rejected promise of the module carries: the error thrown by \<open>notFound()\<close> of
  next/navigation, a rejection of \<open>fs.promises.readdir\<close>, an exception of gray-matter's
  YAML parser, or a failure of the unified processor.
\<close>

datatype error =
    NEXT_NOT_FOUND
  | FsError errno
  | YAMLException string
  | ProcessError string

datatype syscall = Readdir string | ReadFile string

text \<open>
  The world: what \<open>readdir\<close> and \<open>readFile\<close> answer for each path, and the calls issued
  so far, in the order they were issued.
\<close>

record world =
  dirs :: "string \<Rightarrow> errno + string list"
  files :: "string \<Rightarrow> errno + string"
  trace :: "syscall list"

definition readdir :: "string \<Rightarrow> world \<Rightarrow> (errno + string list) \<times> world" where
  "readdir p w = (dirs w p, w\<lparr>trace := trace w @ [Readdir p]\<rparr>)"

definition readFile :: "string \<Rightarrow> world \<Rightarrow> (errno + string) \<times> world" where
  "readFile p w = (files w p, w\<lparr>trace := trace w @ [ReadFile p]\<rparr>)"

subsection \<open>The libraries the module calls\<close>

text \<open>The result of \<open>matter(content)\<close>: the front-matter object and the remaining text.\<close>

record gray_matter_file =
  data :: object
  content :: string

datatype plugin = remarkParse | remarkFrontmatter | remarkGfm | remarkRehype | rehypeStringify

text \<open>A unified processor is known here by the plugins attached to it, in order.\<close>

record processor =
  attachers :: "plugin list"

definition unified :: processor where
  "unified = \<lparr>attachers = []\<rparr>"

definition use :: "plugin \<Rightarrow> processor \<Rightarrow> processor" where
  "use p pr = pr\<lparr>attachers := attachers pr @ [p]\<rparr>"

text \<open>
  The environment of the module: the constant \<open>POSTS_FOLDER\<close>
  (\<open>path.resolve(process.cwd(), '_posts')\<close>, fixed when the module is loaded),
  gray-matter's \<open>matter\<close>, which may throw, and the \<open>process\<close> method of unified,
  which yields the text of the resulting file or fails. Both are taken as functions of
  their arguments: the model describes one call of an operation, and whatever the
  libraries keep between calls (gray-matter caches the files it has seen) is not part
  of it.
\<close>

record env =
  POSTS_FOLDER :: string
  matter :: "string \<Rightarrow> error + gray_matter_file"
  process :: "processor \<Rightarrow> string \<Rightarrow> error + string"

subsection \<open>String.prototype.replace with a string pattern\<close>

text \<open>
  \<open>s.replace(pat, rep)\<close> with a string pattern replaces the first occurrence of the
  pattern only. The module's replacement is the empty string, which has no \<open>$\<close> patterns.
\<close>

fun js_replace :: "string \<Rightarrow> string \<Rightarrow> string \<Rightarrow> string" where
  "js_replace [] pat rep = (if pat = [] then rep else [])"
| "js_replace (c # cs) pat rep =
     (if prefix pat (c # cs) then rep @ drop (length pat) (c # cs)
      else c # js_replace cs pat rep)"

subsection \<open>The operations\<close>

text \<open>
  \<^verbatim>\<open>const files = await fs.promises.readdir(POSTS_FOLDER)\<close>
  \<^verbatim>\<open>return files.map(fileName => fileName.replace('.md', ''))\<close>
\<close>

definition getPostSlugs :: "env \<Rightarrow> world \<Rightarrow> (error + string list) \<times> world" where
  "getPostSlugs E w =
     (case readdir (POSTS_FOLDER E) w of
        (Inl e, w') \<Rightarrow> (Inl (FsError e), w')
      | (Inr fileNames, w') \<Rightarrow>
          (Inr (map (\<lambda>fileName. js_replace fileName ''.md'' '''') fileNames), w'))"

text \<open>
  \<^verbatim>\<open>fs.promises.readFile(`${POSTS_FOLDER}/${slug}.md`, 'utf-8').catch(() => null)\<close>
\<close>

definition getPostContent :: "env \<Rightarrow> string \<Rightarrow> world \<Rightarrow> string option \<times> world" where
  "getPostContent E slug w =
     (case readFile (POSTS_FOLDER E @ ''/'' @ slug @ ''.md'') w of
        (Inl e, w') \<Rightarrow> (None, w')
      | (Inr text, w') \<Rightarrow> (Some text, w'))"

text \<open>
  \<^verbatim>\<open>return content ? matter(content) : null\<close>: the empty string is falsy as well.
\<close>

definition parseContent ::
  "env \<Rightarrow> string \<Rightarrow> world \<Rightarrow> (error + gray_matter_file option) \<times> world" where
  "parseContent E slug w =
     (case getPostContent E slug w of
        (None, w') \<Rightarrow> (Inr None, w')
      | (Some text, w') \<Rightarrow>
          (if text \<noteq> [] then
             (case matter E text of
                Inl e \<Rightarrow> (Inl e, w')
              | Inr parsed \<Rightarrow> (Inr (Some parsed), w'))
           else (Inr None, w')))"

text \<open>
  \<^verbatim>\<open>return parsed ? { slug, ...parsed.data } : undefined\<close>: the keys of the
  front-matter are spread after \<open>slug\<close>.
\<close>

definition getPostMeta :: "env \<Rightarrow> string \<Rightarrow> world \<Rightarrow> (error + object option) \<times> world" where
  "getPostMeta E slug w =
     (case parseContent E slug w of
        (Inl e, w') \<Rightarrow> (Inl e, w')
      | (Inr None, w') \<Rightarrow> (Inr None, w')
      | (Inr (Some parsed), w') \<Rightarrow>
          (Inr (Some ([''slug'' \<mapsto> JString slug] ++ data parsed)), w'))"

text \<open>
  \<open>slugs.map(getPostMeta)\<close> starts every call, in order, and each call issues its read
  at once; the results are joined by \<open>Promise.all\<close>, which rejects when one of them does.
  When several reject, the run time hands on the one that rejected first; the model
  takes the one of least index.
\<close>

fun map_async :: "('a \<Rightarrow> world \<Rightarrow> 'b \<times> world) \<Rightarrow> 'a list \<Rightarrow> world \<Rightarrow> 'b list \<times> world" where
  "map_async f [] w = ([], w)"
| "map_async f (x # xs) w =
     (case f x w of (r, w') \<Rightarrow>
        (case map_async f xs w' of (rs, w'') \<Rightarrow> (r # rs, w'')))"

fun promise_all :: "(error + 'a) list \<Rightarrow> error + 'a list" where
  "promise_all [] = Inr []"
| "promise_all (Inl e # rs) = Inl e"
| "promise_all (Inr v # rs) =
     (case promise_all rs of Inl e \<Rightarrow> Inl e | Inr vs \<Rightarrow> Inr (v # vs))"

definition getPostList :: "env \<Rightarrow> world \<Rightarrow> (error + object list) \<times> world" where
  "getPostList E w =
     (case getPostSlugs E w of
        (Inl e, w') \<Rightarrow> (Inl e, w')
      | (Inr slugs, w') \<Rightarrow>
          (case map_async (getPostMeta E) slugs w' of (rs, w'') \<Rightarrow>
             (case promise_all rs of
                Inl e \<Rightarrow> (Inl e, w'')
              | Inr posts \<Rightarrow>
                  (Inr (map the (filter (\<lambda>post. post \<noteq> None) posts)), w''))))"

record post =
  postHTML :: string
  postMeta :: object

text \<open>
  \<open>getPost({ slug })\<close>: \<open>notFound()\<close> throws and does not return; otherwise the body
  is processed by a processor built for this call.
\<close>

definition getPost :: "env \<Rightarrow> string \<Rightarrow> world \<Rightarrow> (error + post) \<times> world" where
  "getPost E slug w =
     (case parseContent E slug w of
        (Inl e, w') \<Rightarrow> (Inl e, w')
      | (Inr None, w') \<Rightarrow> (Inl NEXT_NOT_FOUND, w')
      | (Inr (Some parsed), w') \<Rightarrow>
          (case process E
                  (use rehypeStringify (use remarkRehype (use remarkGfm
                     (use remarkFrontmatter (use remarkParse unified)))))
                  (content parsed) of
             Inl e \<Rightarrow> (Inl e, w')
           | Inr html \<Rightarrow> (Inr \<lparr>postHTML = html, postMeta = data parsed\<rparr>, w')))"

subsection \<open>Predicates used to state the properties\<close>

text \<open>\<open>s.includes(pat)\<close>: the pattern occurs somewhere in the string.\<close>

fun js_includes :: "string \<Rightarrow> string \<Rightarrow> bool" where
  "js_includes [] pat = (pat = [])"
| "js_includes (c # cs) pat = (prefix pat (c # cs) \<or> js_includes cs pat)"

text \<open>Splitting a string at every occurrence of a separator character.\<close>

fun split_at :: "char \<Rightarrow> string \<Rightarrow> string list" where
  "split_at sep [] = [] # []"
| "split_at sep (c # cs) =
     (if c = sep then [] # split_at sep cs
      else (case split_at sep cs of [] \<Rightarrow> [c] # [] | l # ls \<Rightarrow> (c # l) # ls))"

text \<open>
  How the file system reads an absolute path: empty segments and \<open>.\<close> are skipped,
  \<open>..\<close> goes to the parent, and the parent of the root is the root. Symbolic links are
  left aside. A path is inside a folder when it resolves to the folder or below it.
\<close>

definition resolve_segment :: "string list \<Rightarrow> string \<Rightarrow> string list" where
  "resolve_segment st seg =
     (if seg = [] \<or> seg = ''.'' then st
      else if seg = ''..'' then butlast st
      else st @ [seg])"

definition resolve :: "string \<Rightarrow> string list" where
  "resolve p = foldl resolve_segment [] (split_at (CHR ''/'') p)"

definition inside :: "string \<Rightarrow> string \<Rightarrow> bool" where
  "inside folder p = prefix (resolve folder) (resolve p)"

text \<open>The file of a slug can be read and holds some text.\<close>

definition has_text :: "env \<Rightarrow> world \<Rightarrow> string \<Rightarrow> bool" where
  "has_text E w slug =
     (case files w (POSTS_FOLDER E @ ''/'' @ slug @ ''.md'') of
        Inl e \<Rightarrow> False
      | Inr text \<Rightarrow> text \<noteq> [])"

subsection \<open>A front-matter splitter and a converter for concrete inputs\<close>

abbreviation LF :: char where
  "LF \<equiv> CHR 0x0A"

fun join_lines :: "string list \<Rightarrow> string" where
  "join_lines [] = []"
| "join_lines [l] = l"
| "join_lines (l # m # ls) = l @ LF # join_lines (m # ls)"

text \<open>A line \<open>key: value\<close> is split at its first colon followed by a space.\<close>

fun split_entry :: "string \<Rightarrow> (string \<times> string) option" where
  "split_entry [] = None"
| "split_entry [c] = (if c = CHR '':'' then Some ([], []) else None)"
| "split_entry (c # d # cs) =
     (if c = CHR '':'' \<and> d = CHR '' '' then Some ([], cs)
      else (case split_entry (d # cs) of
              None \<Rightarrow> None
            | Some (k, v) \<Rightarrow> Some (c # k, v)))"

definition parse_entry :: "string \<Rightarrow> (string \<times> jsvalue) option" where
  "parse_entry l =
     (case split_entry l of
        None \<Rightarrow> None
      | Some (k, v) \<Rightarrow>
          (case split_entry v of None \<Rightarrow> Some (k, JString v) | Some _ \<Rightarrow> None))"

text \<open>
  Modelled from the spec: the Front-Matter Splitter, which is the library gray-matter
  and not code of the repository. The model covers the file format of the spec's
  section 6: a text that does not begin with a \<open>---\<close> line has empty data and is all
  content; otherwise the lines up to the closing \<open>---\<close> are \<open>key: value\<close> pairs whose
  values are words that YAML reads as strings, and the content is what follows the
  closing fence. A line that is no such pair, for instance one whose value holds a
  further \<open>: \<close>, is rejected, as the library's YAML parser rejects
  \<open>title: Foo: Bar\<close>. The theorems below hold for every splitter; this one
  supplies concrete inputs.
\<close>

definition matter_model :: "string \<Rightarrow> error + gray_matter_file" where
  "matter_model text =
     (case split_at LF text of
        [] \<Rightarrow> Inr \<lparr>data = Map.empty, content = text\<rparr>
      | l # ls \<Rightarrow>
          (if l \<noteq> ''---'' then Inr \<lparr>data = Map.empty, content = text\<rparr>
           else
             (case those (map parse_entry
                     (filter (\<lambda>l. l \<noteq> []) (takeWhile (\<lambda>l. l \<noteq> ''---'') ls))) of
                None \<Rightarrow> Inl (YAMLException ''bad indentation of a mapping entry'')
              | Some kvs \<Rightarrow>
                  Inr \<lparr>data = map_of kvs,
                       content = join_lines (drop 1 (dropWhile (\<lambda>l. l \<noteq> ''---'') ls))\<rparr>)))"

text \<open>
  Modelled from the spec: the Markdown-to-HTML Converter, which is the library unified
  with its plugins and not code of the repository. The model covers one body only, a
  single word of lower-case letters, which the five-stage processor renders as one
  paragraph; every other call is outside the model and is reported as a failure. The
  theorems below hold for every converter; this one supplies concrete inputs.
\<close>

definition process_model :: "processor \<Rightarrow> string \<Rightarrow> error + string" where
  "process_model pr text =
     (if attachers pr = [remarkParse, remarkFrontmatter, remarkGfm, remarkRehype, rehypeStringify]
         \<and> text \<noteq> [] \<and> list_all (\<lambda>c. c \<in> set ''abcdefghijklmnopqrstuvwxyz'') text
      then Inr (''<p>'' @ text @ ''</p>'')
      else Inl (ProcessError ''outside the modelled fragment''))"

definition blog_env :: env where
  "blog_env = \<lparr>POSTS_FOLDER = ''/app/_posts'', matter = matter_model, process = process_model\<rparr>"

text \<open>
  A file system whose folder \<open>/app/_posts\<close> lists the given entries and whose files
  answer as given; every other path does not exist.
\<close>

definition posts_store :: "string list \<Rightarrow> (string \<times> (errno + string)) list \<Rightarrow> world" where
  "posts_store entries texts =
     \<lparr>dirs = (\<lambda>p. if p = ''/app/_posts'' then Inr entries else Inl ENOENT),
      files = (\<lambda>p. case map_of texts p of None \<Rightarrow> Inl ENOENT | Some r \<Rightarrow> r),
      trace = []\<rparr>"

text \<open>A post with a title, an excerpt and an author, and a body of one word.\<close>

definition hello_md :: string where
  "hello_md = ''---'' @ [LF] @ ''title: Hello'' @ [LF] @ ''excerpt: E'' @ [LF] @
     ''author: A'' @ [LF] @ ''---'' @ [LF] @ ''there''"

text \<open>A file whose front-matter declares a slug of its own.\<close>

definition renamed_md :: string where
  "renamed_md = ''---'' @ [LF] @ ''title: Hello'' @ [LF] @ ''slug: custom'' @ [LF] @
     ''---'' @ [LF] @ ''there''"

text \<open>A file whose front-matter is not valid YAML.\<close>

definition broken_md :: string where
  "broken_md = ''---'' @ [LF] @ ''title: Foo: Bar'' @ [LF] @ ''---'' @ [LF] @ ''there''"

section \<open>Properties\<close>

subsection \<open>What each operation computes\<close>

lemma getPostContent_unfold:
  "getPostContent E slug w =
     ((case files w (POSTS_FOLDER E @ ''/'' @ slug @ ''.md'') of
         Inl e \<Rightarrow> None | Inr text \<Rightarrow> Some text),
      w\<lparr>trace := trace w @ [ReadFile (POSTS_FOLDER E @ ''/'' @ slug @ ''.md'')]\<rparr>)"
  by (simp add: getPostContent_def readFile_def split: sum.splits)

lemma parseContent_unfold:
  "parseContent E slug w =
     ((case files w (POSTS_FOLDER E @ ''/'' @ slug @ ''.md'') of
         Inl e \<Rightarrow> Inr None
       | Inr text \<Rightarrow>
           (if text \<noteq> [] then
              (case matter E text of Inl e \<Rightarrow> Inl e | Inr parsed \<Rightarrow> Inr (Some parsed))
            else Inr None)),
      w\<lparr>trace := trace w @ [ReadFile (POSTS_FOLDER E @ ''/'' @ slug @ ''.md'')]\<rparr>)"
  by (simp add: parseContent_def getPostContent_unfold split: sum.splits)

lemma getPostMeta_unfold:
  "getPostMeta E slug w =
     ((case files w (POSTS_FOLDER E @ ''/'' @ slug @ ''.md'') of
         Inl e \<Rightarrow> Inr None
       | Inr text \<Rightarrow>
           (if text \<noteq> [] then
              (case matter E text of
                 Inl e \<Rightarrow> Inl e
               | Inr parsed \<Rightarrow> Inr (Some ([''slug'' \<mapsto> JString slug] ++ data parsed)))
            else Inr None)),
      w\<lparr>trace := trace w @ [ReadFile (POSTS_FOLDER E @ ''/'' @ slug @ ''.md'')]\<rparr>)"
  by (simp add: getPostMeta_def parseContent_unfold split: sum.splits)

lemma pipeline_attachers:
  "use rehypeStringify (use remarkRehype (use remarkGfm
     (use remarkFrontmatter (use remarkParse unified)))) =
   \<lparr>attachers = [remarkParse, remarkFrontmatter, remarkGfm, remarkRehype, rehypeStringify]\<rparr>"
  by (simp add: use_def unified_def)

lemma getPost_unfold:
  "getPost E slug w =
     ((case files w (POSTS_FOLDER E @ ''/'' @ slug @ ''.md'') of
         Inl e \<Rightarrow> Inl NEXT_NOT_FOUND
       | Inr text \<Rightarrow>
           (if text \<noteq> [] then
              (case matter E text of
                 Inl e \<Rightarrow> Inl e
               | Inr parsed \<Rightarrow>
                   (case process E
                      \<lparr>attachers = [remarkParse, remarkFrontmatter, remarkGfm, remarkRehype,
                         rehypeStringify]\<rparr> (content parsed) of
                      Inl e \<Rightarrow> Inl e
                    | Inr html \<Rightarrow> Inr \<lparr>postHTML = html, postMeta = data parsed\<rparr>))
            else Inl NEXT_NOT_FOUND)),
      w\<lparr>trace := trace w @ [ReadFile (POSTS_FOLDER E @ ''/'' @ slug @ ''.md'')]\<rparr>)"
  by (simp add: getPost_def parseContent_unfold pipeline_attachers split: sum.splits)

lemma getPostSlugs_unfold:
  "getPostSlugs E w =
     ((case dirs w (POSTS_FOLDER E) of
         Inl e \<Rightarrow> Inl (FsError e)
       | Inr fileNames \<Rightarrow> Inr (map (\<lambda>fileName. js_replace fileName ''.md'' '''') fileNames)),
      w\<lparr>trace := trace w @ [Readdir (POSTS_FOLDER E)]\<rparr>)"
  by (simp add: getPostSlugs_def readdir_def split: sum.splits)

lemma fst_getPostMeta_trace:
  "fst (getPostMeta E slug (w\<lparr>trace := t\<rparr>)) = fst (getPostMeta E slug w)"
  by (simp add: getPostMeta_unfold)

lemma map_async_getPostMeta:
  "map_async (getPostMeta E) slugs w =
     (map (\<lambda>slug. fst (getPostMeta E slug w)) slugs,
      w\<lparr>trace := trace w @
           map (\<lambda>slug. ReadFile (POSTS_FOLDER E @ ''/'' @ slug @ ''.md'')) slugs\<rparr>)"
proof (induction slugs arbitrary: w)
  case Nil
  show ?case by simp
next
  case (Cons s slugs)
  have step: "getPostMeta E s w =
      (fst (getPostMeta E s w),
       w\<lparr>trace := trace w @ [ReadFile (POSTS_FOLDER E @ ''/'' @ s @ ''.md'')]\<rparr>)"
    by (simp add: getPostMeta_unfold)
  show ?case
    by (subst map_async.simps, subst step, simp add: Cons.IH fst_getPostMeta_trace)
qed

lemma getPostList_unfold:
  "getPostList E w =
     (case dirs w (POSTS_FOLDER E) of
        Inl e \<Rightarrow> (Inl (FsError e), w\<lparr>trace := trace w @ [Readdir (POSTS_FOLDER E)]\<rparr>)
      | Inr fileNames \<Rightarrow>
          ((case promise_all (map (\<lambda>slug. fst (getPostMeta E slug w))
                    (map (\<lambda>fileName. js_replace fileName ''.md'' '''') fileNames)) of
              Inl e \<Rightarrow> Inl e
            | Inr posts \<Rightarrow> Inr (map the (filter (\<lambda>post. post \<noteq> None) posts))),
           w\<lparr>trace := trace w @ Readdir (POSTS_FOLDER E) #
                map (\<lambda>slug. ReadFile (POSTS_FOLDER E @ ''/'' @ slug @ ''.md''))
                  (map (\<lambda>fileName. js_replace fileName ''.md'' '''') fileNames)\<rparr>))"
  by (simp add: getPostList_def getPostSlugs_unfold map_async_getPostMeta
      fst_getPostMeta_trace split: sum.splits)

subsection \<open>Stripping the extension\<close>

lemma js_replace_absent: "\<not> js_includes s pat \<Longrightarrow> js_replace s pat rep = s"
  by (induction s) auto

lemma no_md_across:
  assumes "\<not> prefix ''.md'' (c # cs)"
  shows "\<not> prefix ''.md'' (c # cs @ ''.md'')"
proof (cases cs)
  case Nil
  then show ?thesis by simp
next
  case (Cons x xs)
  with assms show ?thesis by (cases xs) auto
qed

lemma js_replace_extension:
  "\<not> js_includes name ''.md'' \<Longrightarrow> js_replace (name @ ''.md'') ''.md'' '''' = name"
proof (induction name)
  case Nil
  show ?case by simp
next
  case (Cons c cs)
  from Cons.prems have a: "\<not> prefix ''.md'' (c # cs)" and b: "\<not> js_includes cs ''.md''"
    by simp_all
  have "\<not> prefix ''.md'' (c # cs @ ''.md'')" using a by (rule no_md_across)
  then have "js_replace (c # cs @ ''.md'') ''.md'' '''' = c # js_replace (cs @ ''.md'') ''.md'' ''''"
    by (simp only: js_replace.simps if_False)
  with Cons.IH [OF b] show ?case by (simp only: append_Cons)
qed

subsection \<open>The splitter and the converter on the concrete files\<close>

lemma matter_model_renamed:
  "matter_model renamed_md =
     Inr \<lparr>data = [''title'' \<mapsto> JString ''Hello'', ''slug'' \<mapsto> JString ''custom''],
          content = ''there''\<rparr>"
  by (simp add: matter_model_def renamed_md_def parse_entry_def fun_eq_iff)

lemma matter_model_hello:
  "matter_model hello_md =
     Inr \<lparr>data = [''title'' \<mapsto> JString ''Hello'', ''excerpt'' \<mapsto> JString ''E'',
                  ''author'' \<mapsto> JString ''A''],
          content = ''there''\<rparr>"
  by (simp add: matter_model_def hello_md_def parse_entry_def fun_eq_iff)

lemma matter_model_broken:
  "matter_model broken_md = Inl (YAMLException ''bad indentation of a mapping entry'')"
  by (simp add: matter_model_def broken_md_def parse_entry_def)

lemma process_model_there:
  "process_model
     \<lparr>attachers = [remarkParse, remarkFrontmatter, remarkGfm, remarkRehype, rehypeStringify]\<rparr>
     ''there'' = Inr ''<p>there</p>''"
  by (simp add: process_model_def)

subsection \<open>Splitting and resolving paths\<close>

lemma split_at_not_Nil: "split_at sep s \<noteq> []"
  by (induction s) (auto split: list.splits)

lemma split_at_append:
  "split_at sep (a @ sep # b) = split_at sep a @ split_at sep b"
proof (induction a)
  case Nil
  show ?case by simp
next
  case (Cons c a)
  obtain l ls where "split_at sep a = l # ls"
    using split_at_not_Nil [of sep a] by (cases "split_at sep a") auto
  with Cons show ?case by simp
qed

lemma split_at_plain: "sep \<notin> set s \<Longrightarrow> split_at sep s = [s]"
  by (induction s) auto

lemma md_name_is_segment:
  "name @ ''.md'' \<noteq> [] \<and> name @ ''.md'' \<noteq> ''.'' \<and> name @ ''.md'' \<noteq> ''..''"
  by (auto dest: arg_cong [where f = length])

lemma resolve_parent_sibling:
  assumes "CHR ''/'' \<notin> set name"
  shows "resolve (folder @ ''/../'' @ name @ ''.md'') =
           butlast (resolve folder) @ [name @ ''.md'']"
proof -
  have plain: "split_at (CHR ''/'') (name @ ''.md'') = [name @ ''.md'']"
    using assms by (simp add: split_at_plain)
  have "folder @ ''/../'' @ name @ ''.md'' =
          folder @ CHR ''/'' # (''..'' @ CHR ''/'' # (name @ ''.md''))"
    by simp
  then have "split_at (CHR ''/'') (folder @ ''/../'' @ name @ ''.md'') =
          split_at (CHR ''/'') folder @ split_at (CHR ''/'') ''..'' @
          split_at (CHR ''/'') (name @ ''.md'')"
    by (simp only: split_at_append)
  also have "\<dots> = split_at (CHR ''/'') folder @ [''..'', name @ ''.md'']"
    by (simp add: plain)
  finally have "resolve (folder @ ''/../'' @ name @ ''.md'') =
      resolve_segment (resolve_segment (resolve folder) ''..'') (name @ ''.md'')"
    by (simp add: resolve_def)
  then show ?thesis
    using md_name_is_segment [of name] by (simp add: resolve_segment_def)
qed

lemma not_prefix_sibling:
  assumes "st \<noteq> []" and "last st \<noteq> x"
  shows "\<not> prefix st (butlast st @ [x])"
proof
  assume "prefix st (butlast st @ [x])"
  then obtain zs where eq: "butlast st @ [x] = st @ zs" by (auto simp: prefix_def)
  then have "length (butlast st @ [x]) = length (st @ zs)" by simp
  with assms(1) have "zs = []" by simp
  with eq have "last st = x" by (metis append_Nil2 last_snoc)
  with assms(2) show False by simp
qed

subsection \<open>Joining the results of the listing\<close>

lemma promise_all_Inr:
  "\<forall>r \<in> set rs. \<exists>v. r = Inr v \<Longrightarrow> promise_all rs = Inr (map projr rs)"
  by (induction rs) auto

lemma promise_all_Inl:
  "Inl e \<in> set rs \<Longrightarrow> \<exists>e'. promise_all rs = Inl e' \<and> Inl e' \<in> set rs"
proof (induction rs)
  case Nil
  then show ?case by simp
next
  case (Cons r rs)
  show ?case
  proof (cases r)
    case (Inl a)
    then show ?thesis by simp
  next
    case (Inr v)
    with Cons.prems have "Inl e \<in> set rs" by auto
    from Cons.IH [OF this] obtain e' where "promise_all rs = Inl e'" "Inl e' \<in> set rs"
      by blast
    with Inr show ?thesis by simp
  qed
qed

lemma fst_getPostMeta_cases:
  "fst (getPostMeta E slug w) =
     (if has_text E w slug then
        (case matter E (projr (files w (POSTS_FOLDER E @ ''/'' @ slug @ ''.md''))) of
           Inl e \<Rightarrow> Inl e
         | Inr parsed \<Rightarrow> Inr (Some ([''slug'' \<mapsto> JString slug] ++ data parsed)))
      else Inr None)"
  by (simp add: getPostMeta_unfold has_text_def split: sum.splits)

lemma fst_getPostList:
  assumes "dirs w (POSTS_FOLDER E) = Inr fileNames"
  shows "fst (getPostList E w) =
     (case promise_all (map (\<lambda>slug. fst (getPostMeta E slug w))
               (map (\<lambda>fileName. js_replace fileName ''.md'' '''') fileNames)) of
        Inl e \<Rightarrow> Inl e
      | Inr posts \<Rightarrow> Inr (map the (filter (\<lambda>post. post \<noteq> None) posts)))"
  using assms by (simp add: getPostList_unfold)

lemma present_posts:
  assumes "\<forall>slug \<in> set slugs. \<exists>meta. fst (getPostMeta E slug w) = Inr meta"
  shows "map the (filter (\<lambda>post. post \<noteq> None)
            (map projr (map (\<lambda>slug. fst (getPostMeta E slug w)) slugs))) =
         map (\<lambda>slug. the (projr (fst (getPostMeta E slug w))))
           (filter (has_text E w) slugs)"
proof -
  have same: "\<forall>slug \<in> set slugs.
      (projr (fst (getPostMeta E slug w)) \<noteq> None) = has_text E w slug"
  proof
    fix slug assume "slug \<in> set slugs"
    with assms obtain meta where m: "fst (getPostMeta E slug w) = Inr meta" by blast
    then show "(projr (fst (getPostMeta E slug w)) \<noteq> None) = has_text E w slug"
      by (auto simp: fst_getPostMeta_cases split: if_splits sum.splits)
  qed
  have "filter (\<lambda>post. post \<noteq> None)
          (map (\<lambda>slug. projr (fst (getPostMeta E slug w))) slugs) =
        map (\<lambda>slug. projr (fst (getPostMeta E slug w)))
          (filter (\<lambda>slug. projr (fst (getPostMeta E slug w)) \<noteq> None) slugs)"
    by (simp add: filter_map comp_def)
  also have "filter (\<lambda>slug. projr (fst (getPostMeta E slug w)) \<noteq> None) slugs =
      filter (has_text E w) slugs"
    using same by (intro filter_cong) auto
  finally show ?thesis by (simp add: comp_def)
qed

lemma fst_getPostList_slugs:
  assumes "fst (getPostSlugs E w) = Inr slugs"
  shows "fst (getPostList E w) =
     (case promise_all (map (\<lambda>slug. fst (getPostMeta E slug w)) slugs) of
        Inl e \<Rightarrow> Inl e
      | Inr metas \<Rightarrow> Inr (map the (filter (\<lambda>meta. meta \<noteq> None) metas)))"
proof -
  from assms obtain fileNames where d: "dirs w (POSTS_FOLDER E) = Inr fileNames"
    and s: "slugs = map (\<lambda>fileName. js_replace fileName ''.md'' '''') fileNames"
    by (auto simp: getPostSlugs_unfold split: sum.splits)
  show ?thesis unfolding s by (rule fst_getPostList [OF d])
qed

lemma slug_of_present_post:
  assumes "\<forall>raw parsed. files w (POSTS_FOLDER E @ ''/'' @ slug @ ''.md'') = Inr raw \<and>
             matter E raw = Inr parsed \<longrightarrow> data parsed ''slug'' = None"
    and "fst (getPostMeta E slug w) = Inr (Some post)"
  shows "post ''slug'' = Some (JString slug)"
proof -
  from assms(2) obtain raw parsed where
    r: "files w (POSTS_FOLDER E @ ''/'' @ slug @ ''.md'') = Inr raw" "matter E raw = Inr parsed"
    and p: "post = [''slug'' \<mapsto> JString slug] ++ data parsed"
    by (auto simp: getPostMeta_unfold split: sum.splits if_splits)
  from assms(1) r have "data parsed ''slug'' = None" by blast
  with p show ?thesis by (simp add: map_add_def)
qed

section \<open>The claims\<close>

text \<open>
  C1, amended. During the listing, a failure to read one file is caught: the file is
  treated as absent and left out. A failure of the front-matter parser is not caught.
  When the folder can be listed and the parser succeeds on every file that was read,
  \<open>getPostList\<close> returns the metadata of exactly the files that hold some text, in
  the order of the listing; when the parser throws on one of them, \<open>getPostList\<close>
  rejects with an error that the parser threw.
\<close>

theorem getPostList_read_failures_absent:
  assumes "dirs w (POSTS_FOLDER E) = Inr fileNames"
  shows "((\<forall>f \<in> set fileNames. \<forall>text.
             files w (POSTS_FOLDER E @ ''/'' @ js_replace f ''.md'' '''' @ ''.md'') = Inr text \<and>
             text \<noteq> [] \<longrightarrow> (\<exists>parsed. matter E text = Inr parsed))
          \<longrightarrow> (\<exists>posts. fst (getPostList E w) = Inr posts \<and>
                 posts = map (\<lambda>slug. the (projr (fst (getPostMeta E slug w))))
                           (filter (has_text E w)
                              (map (\<lambda>f. js_replace f ''.md'' '''') fileNames)) \<and>
                 length posts =
                   length (filter (\<lambda>f. has_text E w (js_replace f ''.md'' '''')) fileNames))) \<and>
         ((\<exists>f \<in> set fileNames. \<exists>text err.
             files w (POSTS_FOLDER E @ ''/'' @ js_replace f ''.md'' '''' @ ''.md'') = Inr text \<and>
             text \<noteq> [] \<and> matter E text = Inl err)
          \<longrightarrow> (\<exists>f \<in> set fileNames. \<exists>text err.
                 files w (POSTS_FOLDER E @ ''/'' @ js_replace f ''.md'' '''' @ ''.md'') = Inr text \<and>
                 text \<noteq> [] \<and> matter E text = Inl err \<and>
                 fst (getPostList E w) = Inl err))"
proof (intro conjI impI)
  let ?slugs = "map (\<lambda>f. js_replace f ''.md'' '''') fileNames"
  let ?rs = "map (\<lambda>slug. fst (getPostMeta E slug w)) ?slugs"
  assume ok: "\<forall>f \<in> set fileNames. \<forall>text.
      files w (POSTS_FOLDER E @ ''/'' @ js_replace f ''.md'' '''' @ ''.md'') = Inr text \<and>
      text \<noteq> [] \<longrightarrow> (\<exists>parsed. matter E text = Inr parsed)"
  have metas: "\<forall>slug \<in> set ?slugs. \<exists>meta. fst (getPostMeta E slug w) = Inr meta"
  proof
    fix slug assume "slug \<in> set ?slugs"
    then obtain f where f: "f \<in> set fileNames" "slug = js_replace f ''.md'' ''''" by auto
    show "\<exists>meta. fst (getPostMeta E slug w) = Inr meta"
    proof (cases "files w (POSTS_FOLDER E @ ''/'' @ slug @ ''.md'')")
      case (Inl e)
      then show ?thesis by (simp add: getPostMeta_unfold)
    next
      case (Inr raw)
      show ?thesis
      proof (cases "raw = []")
        case True
        with Inr show ?thesis by (simp add: getPostMeta_unfold)
      next
        case False
        with ok f Inr obtain parsed where "matter E raw = Inr parsed" by blast
        with Inr False show ?thesis by (simp add: getPostMeta_unfold)
      qed
    qed
  qed
  then have "\<forall>r \<in> set ?rs. \<exists>v. r = Inr v" by auto
  then have all: "promise_all ?rs = Inr (map projr ?rs)" by (rule promise_all_Inr)
  define posts where "posts = map (\<lambda>slug. the (projr (fst (getPostMeta E slug w))))
      (filter (has_text E w) ?slugs)"
  have "fst (getPostList E w) = Inr posts"
    unfolding posts_def present_posts [OF metas, symmetric]
    using all by (simp add: fst_getPostList [OF assms])
  moreover have "length posts =
      length (filter (\<lambda>f. has_text E w (js_replace f ''.md'' '''')) fileNames)"
    by (simp add: posts_def filter_map comp_def)
  ultimately show "\<exists>posts. fst (getPostList E w) = Inr posts \<and>
      posts = map (\<lambda>slug. the (projr (fst (getPostMeta E slug w))))
                (filter (has_text E w) ?slugs) \<and>
      length posts = length (filter (\<lambda>f. has_text E w (js_replace f ''.md'' '''')) fileNames)"
    using posts_def by blast
next
  let ?slugs = "map (\<lambda>f. js_replace f ''.md'' '''') fileNames"
  let ?rs = "map (\<lambda>slug. fst (getPostMeta E slug w)) ?slugs"
  assume "\<exists>f \<in> set fileNames. \<exists>text err.
      files w (POSTS_FOLDER E @ ''/'' @ js_replace f ''.md'' '''' @ ''.md'') = Inr text \<and>
      text \<noteq> [] \<and> matter E text = Inl err"
  then obtain f raw err where f: "f \<in> set fileNames"
    and t: "files w (POSTS_FOLDER E @ ''/'' @ js_replace f ''.md'' '''' @ ''.md'') = Inr raw"
      "raw \<noteq> []" "matter E raw = Inl err"
    by blast
  from t have "fst (getPostMeta E (js_replace f ''.md'' '''') w) = Inl err"
    by (simp add: getPostMeta_unfold)
  with f have "Inl err \<in> set ?rs" by force
  from promise_all_Inl [OF this] obtain e' where
    e': "promise_all ?rs = Inl e'" "Inl e' \<in> set ?rs" by blast
  from e'(2) obtain g where g: "g \<in> set fileNames"
    "fst (getPostMeta E (js_replace g ''.md'' '''') w) = Inl e'" by auto
  from g(2) obtain raw' where
    "files w (POSTS_FOLDER E @ ''/'' @ js_replace g ''.md'' '''' @ ''.md'') = Inr raw'"
    "raw' \<noteq> []" "matter E raw' = Inl e'"
    by (auto simp: getPostMeta_unfold split: sum.splits if_splits)
  moreover from e'(1) have "fst (getPostList E w) = Inl e'"
    by (simp add: fst_getPostList [OF assms])
  ultimately show "\<exists>f \<in> set fileNames. \<exists>text err.
      files w (POSTS_FOLDER E @ ''/'' @ js_replace f ''.md'' '''' @ ''.md'') = Inr text \<and>
      text \<noteq> [] \<and> matter E text = Inl err \<and> fst (getPostList E w) = Inl err"
    using g(1) by blast
qed

theorem getPostList_read_failures_absent_witness:
  "dirs (posts_store [''hello.md'', ''draft.md'']
       [(''/app/_posts/hello.md'', Inr hello_md), (''/app/_posts/draft.md'', Inl EACCES)])
     (POSTS_FOLDER blog_env) = Inr [''hello.md'', ''draft.md''] \<and>
   files (posts_store [''hello.md'', ''draft.md'']
       [(''/app/_posts/hello.md'', Inr hello_md), (''/app/_posts/draft.md'', Inl EACCES)])
     ''/app/_posts/draft.md'' = Inl EACCES \<and>
   (\<exists>parsed. matter blog_env hello_md = Inr parsed) \<and>
   (\<exists>posts. fst (getPostList blog_env
       (posts_store [''hello.md'', ''draft.md'']
          [(''/app/_posts/hello.md'', Inr hello_md), (''/app/_posts/draft.md'', Inl EACCES)])) =
       Inr posts \<and> length posts = 1) \<and>
   dirs (posts_store [''broken.md''] [(''/app/_posts/broken.md'', Inr broken_md)])
     (POSTS_FOLDER blog_env) = Inr [''broken.md''] \<and>
   files (posts_store [''broken.md''] [(''/app/_posts/broken.md'', Inr broken_md)])
     ''/app/_posts/broken.md'' = Inr broken_md \<and>
   broken_md \<noteq> [] \<and>
   matter blog_env broken_md = Inl (YAMLException ''bad indentation of a mapping entry'') \<and>
   fst (getPostList blog_env
     (posts_store [''broken.md''] [(''/app/_posts/broken.md'', Inr broken_md)])) =
     Inl (YAMLException ''bad indentation of a mapping entry'')"
proof -
  let ?w1 = "posts_store [''hello.md'', ''draft.md'']
       [(''/app/_posts/hello.md'', Inr hello_md), (''/app/_posts/draft.md'', Inl EACCES)]"
  let ?w2 = "posts_store [''broken.md''] [(''/app/_posts/broken.md'', Inr broken_md)]"
  have d1: "dirs ?w1 (POSTS_FOLDER blog_env) = Inr [''hello.md'', ''draft.md'']"
    by (simp add: posts_store_def blog_env_def)
  have f1: "files ?w1 ''/app/_posts/draft.md'' = Inl EACCES"
    by (simp add: posts_store_def)
  have m1: "\<exists>parsed. matter blog_env hello_md = Inr parsed"
    by (simp add: blog_env_def matter_model_hello)
  have ne1: "hello_md \<noteq> []" by (simp add: hello_md_def)
  have ok1: "\<forall>f \<in> set [''hello.md'', ''draft.md'']. \<forall>text.
      files ?w1 (POSTS_FOLDER blog_env @ ''/'' @ js_replace f ''.md'' '''' @ ''.md'') = Inr text \<and>
      text \<noteq> [] \<longrightarrow> (\<exists>parsed. matter blog_env text = Inr parsed)"
    using m1 by (simp add: posts_store_def blog_env_def)
  have n1: "length (filter (\<lambda>f. has_text blog_env ?w1 (js_replace f ''.md'' ''''))
      [''hello.md'', ''draft.md'']) = 1"
    using ne1 by (simp add: has_text_def posts_store_def blog_env_def)
  from getPostList_read_failures_absent [OF d1] ok1 n1
  have r1: "\<exists>posts. fst (getPostList blog_env ?w1) = Inr posts \<and> length posts = 1"
    by auto
  have d2: "dirs ?w2 (POSTS_FOLDER blog_env) = Inr [''broken.md'']"
    by (simp add: posts_store_def blog_env_def)
  have f2: "files ?w2 ''/app/_posts/broken.md'' = Inr broken_md"
    by (simp add: posts_store_def)
  have ne2: "broken_md \<noteq> []" by (simp add: broken_md_def)
  have m2: "matter blog_env broken_md =
      Inl (YAMLException ''bad indentation of a mapping entry'')"
    by (simp add: blog_env_def matter_model_broken)
  have p2: "files ?w2 (POSTS_FOLDER blog_env @ ''/'' @ js_replace ''broken.md'' ''.md'' '''' @ ''.md'')
      = Inr broken_md"
    by (simp add: posts_store_def blog_env_def)
  have bad: "\<exists>f \<in> set [''broken.md'']. \<exists>text err.
      files ?w2 (POSTS_FOLDER blog_env @ ''/'' @ js_replace f ''.md'' '''' @ ''.md'') = Inr text \<and>
      text \<noteq> [] \<and> matter blog_env text = Inl err"
    using p2 ne2 m2 by auto
  from getPostList_read_failures_absent [OF d2] bad
  obtain f raw err where "f \<in> set [''broken.md'']"
    "files ?w2 (POSTS_FOLDER blog_env @ ''/'' @ js_replace f ''.md'' '''' @ ''.md'') = Inr raw"
    "matter blog_env raw = Inl err" "fst (getPostList blog_env ?w2) = Inl err"
    by blast
  with p2 m2 have r2: "fst (getPostList blog_env ?w2) =
      Inl (YAMLException ''bad indentation of a mapping entry'')"
    by simp
  from d1 f1 m1 r1 d2 f2 ne2 m2 r2 show ?thesis by blast
qed

text \<open>
  C1 as stated fails: with one well-formed file and one file whose front-matter is
  not valid YAML, the listing is rejected with the parser's exception.
\<close>

theorem getPostList_propagates_parse_error:
  "fst (getPostList blog_env
     (posts_store [''hello.md'', ''broken.md'']
        [(''/app/_posts/hello.md'', Inr hello_md), (''/app/_posts/broken.md'', Inr broken_md)])) =
   Inl (YAMLException ''bad indentation of a mapping entry'')"
proof -
  have "hello_md \<noteq> []" "broken_md \<noteq> []" by (simp_all add: hello_md_def broken_md_def)
  then show ?thesis
    by (simp add: getPostList_unfold getPostMeta_unfold posts_store_def blog_env_def
        matter_model_hello matter_model_broken)
qed

text \<open>
  C2, amended. \<open>getPostSlugs\<close> returns one string for every entry of the folder, in
  the order of the listing: an entry that does not contain \<open>.md\<close> is returned as it
  is (it is not left out), and an entry \<open>name.md\<close> whose name does not contain \<open>.md\<close>
  gives \<open>name\<close>. When every entry has that form, the result is exactly the set of the
  names, without duplicates.
\<close>

theorem getPostSlugs_strips_first_md:
  assumes "dirs w (POSTS_FOLDER E) = Inr fileNames"
  shows "\<exists>slugs. fst (getPostSlugs E w) = Inr slugs \<and> length slugs = length fileNames \<and>
           (\<forall>i < length fileNames.
              (\<not> js_includes (fileNames ! i) ''.md'' \<longrightarrow> slugs ! i = fileNames ! i) \<and>
              (\<forall>name. fileNames ! i = name @ ''.md'' \<and> \<not> js_includes name ''.md''
                 \<longrightarrow> slugs ! i = name)) \<and>
           ((\<forall>f \<in> set fileNames. \<exists>name. f = name @ ''.md'' \<and> \<not> js_includes name ''.md'') \<and>
            distinct fileNames
              \<longrightarrow> distinct slugs \<and> set slugs = {name. name @ ''.md'' \<in> set fileNames})"
proof -
  define slugs where "slugs = map (\<lambda>fileName. js_replace fileName ''.md'' '''') fileNames"
  have res: "fst (getPostSlugs E w) = Inr slugs"
    using assms by (simp add: getPostSlugs_unfold slugs_def)
  have len: "length slugs = length fileNames"
    by (simp add: slugs_def)
  have pointwise: "\<forall>i < length fileNames.
      (\<not> js_includes (fileNames ! i) ''.md'' \<longrightarrow> slugs ! i = fileNames ! i) \<and>
      (\<forall>name. fileNames ! i = name @ ''.md'' \<and> \<not> js_includes name ''.md''
         \<longrightarrow> slugs ! i = name)"
    by (simp add: slugs_def js_replace_absent js_replace_extension)
  have whole: "distinct slugs \<and> set slugs = {name. name @ ''.md'' \<in> set fileNames}"
    if every: "\<forall>f \<in> set fileNames. \<exists>name. f = name @ ''.md'' \<and> \<not> js_includes name ''.md''"
      and dist: "distinct fileNames"
  proof -
    have restore: "map (\<lambda>s. s @ ''.md'') slugs = fileNames"
      unfolding slugs_def map_map
    proof (rule map_idI)
      fix f assume "f \<in> set fileNames"
      with every obtain name where "f = name @ ''.md''" "\<not> js_includes name ''.md''" by blast
      then show "((\<lambda>s. s @ ''.md'') \<circ> (\<lambda>fileName. js_replace fileName ''.md'' '''')) f = f"
        by (simp add: js_replace_extension)
    qed
    from dist restore have "distinct (map (\<lambda>s. s @ ''.md'') slugs)" by simp
    then have d: "distinct slugs" by (simp add: distinct_map)
    have "set fileNames = (\<lambda>s. s @ ''.md'') ` set slugs"
      using restore by (metis set_map)
    then have "set slugs = {name. name @ ''.md'' \<in> set fileNames}"
      by auto
    with d show ?thesis by simp
  qed
  from res len pointwise whole show ?thesis by blast
qed

theorem getPostSlugs_strips_first_md_witness:
  "dirs (posts_store [''hello.md'', ''notes.txt''] []) (POSTS_FOLDER blog_env) =
     Inr [''hello.md'', ''notes.txt''] \<and>
   \<not> js_includes ''notes.txt'' ''.md'' \<and> \<not> js_includes ''hello'' ''.md'' \<and>
   (\<exists>slugs. fst (getPostSlugs blog_env (posts_store [''hello.md'', ''notes.txt''] [])) = Inr slugs \<and>
      slugs ! 0 = ''hello'' \<and> slugs ! 1 = ''notes.txt'') \<and>
   dirs (posts_store [''hello.md'', ''world.md''] []) (POSTS_FOLDER blog_env) =
     Inr [''hello.md'', ''world.md''] \<and>
   \<not> js_includes ''world'' ''.md'' \<and> distinct [''hello.md'', ''world.md''] \<and>
   (\<exists>slugs. fst (getPostSlugs blog_env (posts_store [''hello.md'', ''world.md''] [])) = Inr slugs \<and>
      distinct slugs \<and> set slugs = {name. name @ ''.md'' \<in> set [''hello.md'', ''world.md'']})"
proof -
  have d1: "dirs (posts_store [''hello.md'', ''notes.txt''] []) (POSTS_FOLDER blog_env) =
      Inr [''hello.md'', ''notes.txt'']"
    by (simp add: posts_store_def blog_env_def)
  have d2: "dirs (posts_store [''hello.md'', ''world.md''] []) (POSTS_FOLDER blog_env) =
      Inr [''hello.md'', ''world.md'']"
    by (simp add: posts_store_def blog_env_def)
  have n1: "\<not> js_includes ''notes.txt'' ''.md''" by simp
  have n2: "\<not> js_includes ''hello'' ''.md''" by simp
  have n3: "\<not> js_includes ''world'' ''.md''" by simp
  from getPostSlugs_strips_first_md [OF d1] obtain slugs where
    s: "fst (getPostSlugs blog_env (posts_store [''hello.md'', ''notes.txt''] [])) = Inr slugs"
    and p: "\<forall>i < length [''hello.md'', ''notes.txt''].
        (\<not> js_includes ([''hello.md'', ''notes.txt''] ! i) ''.md''
           \<longrightarrow> slugs ! i = [''hello.md'', ''notes.txt''] ! i) \<and>
        (\<forall>name. [''hello.md'', ''notes.txt''] ! i = name @ ''.md'' \<and> \<not> js_includes name ''.md''
           \<longrightarrow> slugs ! i = name)"
    by blast
  from p have p0: "\<forall>name. [''hello.md'', ''notes.txt''] ! 0 = name @ ''.md'' \<and> \<not> js_includes name ''.md''
           \<longrightarrow> slugs ! 0 = name"
    by simp
  have a0: "slugs ! 0 = ''hello''"
    using p0 [rule_format, of "''hello''"] n2 by simp
  from p n1 have a1: "slugs ! 1 = ''notes.txt''" by simp
  have all: "\<forall>f \<in> set [''hello.md'', ''world.md''].
      \<exists>name. f = name @ ''.md'' \<and> \<not> js_includes name ''.md''"
  proof -
    have "''hello.md'' = ''hello'' @ ''.md'' \<and> \<not> js_includes ''hello'' ''.md''" by simp
    moreover have "''world.md'' = ''world'' @ ''.md'' \<and> \<not> js_includes ''world'' ''.md''" by simp
    ultimately show ?thesis by (metis empty_iff empty_set set_ConsD)
  qed
  have dist: "distinct [''hello.md'', ''world.md'']" by simp
  from getPostSlugs_strips_first_md [OF d2] all dist obtain slugs' where
    "fst (getPostSlugs blog_env (posts_store [''hello.md'', ''world.md''] [])) = Inr slugs'"
    "distinct slugs'" "set slugs' = {name. name @ ''.md'' \<in> set [''hello.md'', ''world.md'']}"
    by blast
  with d1 d2 n1 n2 n3 dist s a0 a1 show ?thesis by blast
qed

text \<open>
  C2 as stated fails: an entry without the extension is returned too, and together with
  \<open>hello.md\<close> the entry \<open>hello\<close> gives the same slug twice.
\<close>

theorem getPostSlugs_keeps_other_entries:
  "fst (getPostSlugs blog_env (posts_store [''hello.md'', ''notes.txt'', ''hello''] [])) =
     Inr [''hello'', ''notes.txt'', ''hello'']"
  by (simp add: getPostSlugs_unfold blog_env_def posts_store_def)

text \<open>
  C3. When the read of the file of a slug fails, whatever the reason, \<open>getPostMeta\<close>
  returns \<open>undefined\<close> and does not throw.
\<close>

theorem getPostMeta_absent_on_read_failure:
  "files w (POSTS_FOLDER E @ ''/'' @ slug @ ''.md'') = Inl e \<Longrightarrow>
   fst (getPostMeta E slug w) = Inr None"
  by (simp add: getPostMeta_unfold)

theorem getPostMeta_absent_on_read_failure_witness:
  "files (posts_store [''draft.md''] [(''/app/_posts/draft.md'', Inl EACCES)])
     (POSTS_FOLDER blog_env @ ''/'' @ ''draft'' @ ''.md'') = Inl EACCES \<and>
   fst (getPostMeta blog_env ''draft''
     (posts_store [''draft.md''] [(''/app/_posts/draft.md'', Inl EACCES)])) = Inr None \<and>
   files (posts_store [] []) (POSTS_FOLDER blog_env @ ''/'' @ ''does-not-exist'' @ ''.md'') = Inl ENOENT \<and>
   fst (getPostMeta blog_env ''does-not-exist'' (posts_store [] [])) = Inr None"
proof -
  have a: "files (posts_store [''draft.md''] [(''/app/_posts/draft.md'', Inl EACCES)])
     (POSTS_FOLDER blog_env @ ''/'' @ ''draft'' @ ''.md'') = Inl EACCES"
    by (simp add: posts_store_def blog_env_def)
  have b: "files (posts_store [] []) (POSTS_FOLDER blog_env @ ''/'' @ ''does-not-exist'' @ ''.md'')
      = Inl ENOENT"
    by (simp add: posts_store_def blog_env_def)
  from a b getPostMeta_absent_on_read_failure [OF a] getPostMeta_absent_on_read_failure [OF b]
  show ?thesis by blast
qed

text \<open>
  C4, amended. \<open>getPostList\<close> is \<open>getPostMeta\<close> mapped over the result of
  \<open>getPostSlugs\<close>, joined by \<open>Promise.all\<close> and with the absent results filtered out,
  in the order of the slugs. When no call fails, its length is the number of slugs minus
  the number of absent results. When moreover the slugs are distinct and no front-matter
  declares a key \<open>slug\<close>, the slugs of the elements are distinct and each of them is
  one of the slugs of \<open>getPostSlugs\<close>.
\<close>

theorem getPostList_maps_getPostMeta:
  assumes "fst (getPostSlugs E w) = Inr slugs"
  shows "fst (getPostList E w) =
           (case promise_all (map (\<lambda>slug. fst (getPostMeta E slug w)) slugs) of
              Inl e \<Rightarrow> Inl e
            | Inr metas \<Rightarrow> Inr (map the (filter (\<lambda>meta. meta \<noteq> None) metas))) \<and>
         ((\<forall>slug \<in> set slugs. \<exists>meta. fst (getPostMeta E slug w) = Inr meta) \<longrightarrow>
            (\<exists>posts. fst (getPostList E w) = Inr posts \<and>
               posts = map the (filter (\<lambda>meta. meta \<noteq> None)
                         (map (\<lambda>slug. projr (fst (getPostMeta E slug w))) slugs)) \<and>
               length posts = length slugs -
                 length (filter (\<lambda>slug. fst (getPostMeta E slug w) = Inr None) slugs) \<and>
               (distinct slugs \<and>
                (\<forall>slug \<in> set slugs. \<forall>text parsed.
                    files w (POSTS_FOLDER E @ ''/'' @ slug @ ''.md'') = Inr text \<and>
                    matter E text = Inr parsed \<longrightarrow> data parsed ''slug'' = None)
                  \<longrightarrow> distinct (map (\<lambda>post. post ''slug'') posts) \<and>
                      (\<forall>post \<in> set posts. \<exists>slug \<in> set slugs.
                          post ''slug'' = Some (JString slug)))))"
proof (intro conjI impI)
  show "fst (getPostList E w) =
      (case promise_all (map (\<lambda>slug. fst (getPostMeta E slug w)) slugs) of
         Inl e \<Rightarrow> Inl e
       | Inr metas \<Rightarrow> Inr (map the (filter (\<lambda>meta. meta \<noteq> None) metas)))"
    by (rule fst_getPostList_slugs [OF assms])
next
  let ?g = "\<lambda>slug. projr (fst (getPostMeta E slug w))"
  assume ok: "\<forall>slug \<in> set slugs. \<exists>meta. fst (getPostMeta E slug w) = Inr meta"
  then have "\<forall>r \<in> set (map (\<lambda>slug. fst (getPostMeta E slug w)) slugs). \<exists>v. r = Inr v"
    by auto
  then have all: "promise_all (map (\<lambda>slug. fst (getPostMeta E slug w)) slugs) =
      Inr (map ?g slugs)"
    by (simp add: promise_all_Inr comp_def)
  define posts where "posts = map the (filter (\<lambda>meta. meta \<noteq> None) (map ?g slugs))"
  have res: "fst (getPostList E w) = Inr posts"
    by (simp add: fst_getPostList_slugs [OF assms] all posts_def)
  have shape: "posts = map (\<lambda>slug. the (?g slug)) (filter (\<lambda>slug. ?g slug \<noteq> None) slugs)"
    by (simp add: posts_def filter_map comp_def)
  have absent: "filter (\<lambda>slug. fst (getPostMeta E slug w) = Inr None) slugs =
      filter (\<lambda>slug. \<not> (?g slug \<noteq> None)) slugs"
    using ok by (intro filter_cong) auto
  have "length (filter (\<lambda>slug. ?g slug \<noteq> None) slugs) +
      length (filter (\<lambda>slug. \<not> (?g slug \<noteq> None)) slugs) = length slugs"
    by (rule sum_length_filter_compl)
  then have len: "length posts = length slugs -
      length (filter (\<lambda>slug. fst (getPostMeta E slug w) = Inr None) slugs)"
    unfolding absent shape by simp
  have uniq: "distinct (map (\<lambda>post. post ''slug'') posts) \<and>
      (\<forall>post \<in> set posts. \<exists>slug \<in> set slugs. post ''slug'' = Some (JString slug))"
    if h: "distinct slugs \<and>
      (\<forall>slug \<in> set slugs. \<forall>text parsed.
          files w (POSTS_FOLDER E @ ''/'' @ slug @ ''.md'') = Inr text \<and>
          matter E text = Inr parsed \<longrightarrow> data parsed ''slug'' = None)"
  proof -
    have own: "the (?g slug) ''slug'' = Some (JString slug)"
      if "slug \<in> set slugs" "?g slug \<noteq> None" for slug
    proof -
      from ok that(1) obtain meta where m: "fst (getPostMeta E slug w) = Inr meta" by blast
      with that(2) obtain post where "meta = Some post" by auto
      with m have "fst (getPostMeta E slug w) = Inr (Some post)" by simp
      moreover from h that(1) have "\<forall>raw parsed.
          files w (POSTS_FOLDER E @ ''/'' @ slug @ ''.md'') = Inr raw \<and>
          matter E raw = Inr parsed \<longrightarrow> data parsed ''slug'' = None"
        by blast
      ultimately have "post ''slug'' = Some (JString slug)"
        using slug_of_present_post by blast
      with m \<open>meta = Some post\<close> show ?thesis by simp
    qed
    have names: "map (\<lambda>post. post ''slug'') posts =
        map (\<lambda>slug. Some (JString slug)) (filter (\<lambda>slug. ?g slug \<noteq> None) slugs)"
      unfolding shape map_map by (rule map_cong) (auto simp: own)
    have "distinct (map (\<lambda>slug. Some (JString slug)) (filter (\<lambda>slug. ?g slug \<noteq> None) slugs))"
      using h by (simp add: distinct_map inj_on_def)
    then have d: "distinct (map (\<lambda>post. post ''slug'') posts)"
      unfolding names .
    have "\<forall>post \<in> set posts. \<exists>slug \<in> set slugs. post ''slug'' = Some (JString slug)"
      unfolding shape using own by auto
    with d show ?thesis by simp
  qed
  from res len uniq posts_def
  show "\<exists>posts. fst (getPostList E w) = Inr posts \<and>
      posts = map the (filter (\<lambda>meta. meta \<noteq> None) (map ?g slugs)) \<and>
      length posts = length slugs -
        length (filter (\<lambda>slug. fst (getPostMeta E slug w) = Inr None) slugs) \<and>
      (distinct slugs \<and>
       (\<forall>slug \<in> set slugs. \<forall>text parsed.
           files w (POSTS_FOLDER E @ ''/'' @ slug @ ''.md'') = Inr text \<and>
           matter E text = Inr parsed \<longrightarrow> data parsed ''slug'' = None)
         \<longrightarrow> distinct (map (\<lambda>post. post ''slug'') posts) \<and>
             (\<forall>post \<in> set posts. \<exists>slug \<in> set slugs.
                 post ''slug'' = Some (JString slug)))"
    by blast
qed

theorem getPostList_maps_getPostMeta_witness:
  "fst (getPostSlugs blog_env
     (posts_store [''hello.md'', ''draft.md'']
        [(''/app/_posts/hello.md'', Inr hello_md), (''/app/_posts/draft.md'', Inl EACCES)])) =
     Inr [''hello'', ''draft''] \<and>
   (\<exists>post. fst (getPostMeta blog_env ''hello''
      (posts_store [''hello.md'', ''draft.md'']
        [(''/app/_posts/hello.md'', Inr hello_md), (''/app/_posts/draft.md'', Inl EACCES)])) =
      Inr (Some post)) \<and>
   fst (getPostMeta blog_env ''draft''
      (posts_store [''hello.md'', ''draft.md'']
        [(''/app/_posts/hello.md'', Inr hello_md), (''/app/_posts/draft.md'', Inl EACCES)])) =
      Inr None \<and>
   distinct [''hello'', ''draft''] \<and>
   (\<exists>parsed. matter blog_env hello_md = Inr parsed \<and> data parsed ''slug'' = None) \<and>
   (\<exists>posts. fst (getPostList blog_env
       (posts_store [''hello.md'', ''draft.md'']
          [(''/app/_posts/hello.md'', Inr hello_md), (''/app/_posts/draft.md'', Inl EACCES)])) =
       Inr posts \<and>
      length posts = 1 \<and>
      distinct (map (\<lambda>post. post ''slug'') posts) \<and>
      (\<forall>post \<in> set posts. \<exists>slug \<in> set [''hello'', ''draft''].
          post ''slug'' = Some (JString slug)))"
proof -
  let ?w = "posts_store [''hello.md'', ''draft.md'']
        [(''/app/_posts/hello.md'', Inr hello_md), (''/app/_posts/draft.md'', Inl EACCES)]"
  let ?p = "\<lparr>data = [''title'' \<mapsto> JString ''Hello'', ''excerpt'' \<mapsto> JString ''E'',
                  ''author'' \<mapsto> JString ''A''],
          content = ''there''\<rparr>"
  have ne: "hello_md \<noteq> []" by (simp add: hello_md_def)
  have s: "fst (getPostSlugs blog_env ?w) = Inr [''hello'', ''draft'']"
    by (simp add: getPostSlugs_unfold posts_store_def blog_env_def)
  have fh: "files ?w (POSTS_FOLDER blog_env @ ''/'' @ ''hello'' @ ''.md'') = Inr hello_md"
    by (simp add: posts_store_def blog_env_def)
  have fd: "files ?w (POSTS_FOLDER blog_env @ ''/'' @ ''draft'' @ ''.md'') = Inl EACCES"
    by (simp add: posts_store_def blog_env_def)
  have mm: "matter blog_env hello_md = Inr ?p"
    by (simp add: blog_env_def matter_model_hello)
  have mh: "fst (getPostMeta blog_env ''hello'' ?w) =
      Inr (Some ([''slug'' \<mapsto> JString ''hello''] ++ data ?p))"
    using fh ne mm by (simp add: getPostMeta_unfold)
  have md: "fst (getPostMeta blog_env ''draft'' ?w) = Inr None"
    using fd by (simp add: getPostMeta_unfold)
  have ok: "\<forall>slug \<in> set [''hello'', ''draft'']. \<exists>meta. fst (getPostMeta blog_env slug ?w) = Inr meta"
    using mh md by simp
  have dist: "distinct [''hello'', ''draft'']" by simp
  have np: "data ?p ''slug'' = None" by simp
  have plain: "\<forall>slug \<in> set [''hello'', ''draft'']. \<forall>text parsed.
      files ?w (POSTS_FOLDER blog_env @ ''/'' @ slug @ ''.md'') = Inr text \<and>
      matter blog_env text = Inr parsed \<longrightarrow> data parsed ''slug'' = None"
    using fh fd mm np by auto
  have n: "length [''hello'', ''draft''] -
      length (filter (\<lambda>slug. fst (getPostMeta blog_env slug ?w) = Inr None) [''hello'', ''draft''])
      = 1"
    using mh md by simp
  from getPostList_maps_getPostMeta [OF s] ok dist plain obtain posts where
    "fst (getPostList blog_env ?w) = Inr posts"
    "length posts = length [''hello'', ''draft''] -
      length (filter (\<lambda>slug. fst (getPostMeta blog_env slug ?w) = Inr None) [''hello'', ''draft''])"
    "distinct (map (\<lambda>post. post ''slug'') posts)"
    "\<forall>post \<in> set posts. \<exists>slug \<in> set [''hello'', ''draft'']. post ''slug'' = Some (JString slug)"
    by blast
  with n have r: "\<exists>posts. fst (getPostList blog_env ?w) = Inr posts \<and>
      length posts = 1 \<and>
      distinct (map (\<lambda>post. post ''slug'') posts) \<and>
      (\<forall>post \<in> set posts. \<exists>slug \<in> set [''hello'', ''draft''].
          post ''slug'' = Some (JString slug))"
    by auto
  from mm np have e: "\<exists>parsed. matter blog_env hello_md = Inr parsed \<and> data parsed ''slug'' = None"
    by blast
  from mh have e2: "\<exists>post. fst (getPostMeta blog_env ''hello'' ?w) = Inr (Some post)" by blast
  from s e2 md dist e r show ?thesis by blast
qed

text \<open>
  C4 as stated fails: two files whose front-matter declares the same slug give two
  elements with that slug, which is none of the slugs of \<open>getPostSlugs\<close>.
\<close>

theorem getPostList_slugs_repeat:
  "fst (getPostSlugs blog_env
     (posts_store [''a.md'', ''b.md'']
        [(''/app/_posts/a.md'', Inr renamed_md), (''/app/_posts/b.md'', Inr renamed_md)])) =
     Inr [''a'', ''b''] \<and>
   map_sum id (map (\<lambda>post. post ''slug''))
     (fst (getPostList blog_env
        (posts_store [''a.md'', ''b.md'']
           [(''/app/_posts/a.md'', Inr renamed_md), (''/app/_posts/b.md'', Inr renamed_md)]))) =
     Inr [Some (JString ''custom''), Some (JString ''custom'')]"
proof -
  have "renamed_md \<noteq> []" by (simp add: renamed_md_def)
  then show ?thesis
    by (simp add: getPostSlugs_unfold getPostList_unfold getPostMeta_unfold posts_store_def
        blog_env_def matter_model_renamed map_add_def)
qed

text \<open>
  C5, amended. When the file of the slug cannot be read, \<open>getPost\<close> signals
  not-found by the error of \<open>notFound()\<close>, which is no returned value. When the file
  is read, holds some text, the front-matter parser succeeds and the converter yields
  HTML, \<open>getPost\<close> returns the front-matter and that HTML. When the parser throws,
  \<open>getPost\<close> rejects with the parser's exception.
\<close>

theorem getPost_not_found_or_rendered:
  "(files w (POSTS_FOLDER E @ ''/'' @ slug @ ''.md'') = Inl e
      \<longrightarrow> fst (getPost E slug w) = Inl NEXT_NOT_FOUND) \<and>
   (files w (POSTS_FOLDER E @ ''/'' @ slug @ ''.md'') = Inr text \<and> text \<noteq> [] \<and>
    matter E text = Inr parsed \<and>
    process E (use rehypeStringify (use remarkRehype (use remarkGfm
      (use remarkFrontmatter (use remarkParse unified))))) (content parsed) = Inr html
      \<longrightarrow> fst (getPost E slug w) = Inr \<lparr>postHTML = html, postMeta = data parsed\<rparr>) \<and>
   (files w (POSTS_FOLDER E @ ''/'' @ slug @ ''.md'') = Inr text \<and> text \<noteq> [] \<and>
    matter E text = Inl err
      \<longrightarrow> fst (getPost E slug w) = Inl err)"
  by (simp add: getPost_unfold pipeline_attachers)

theorem getPost_not_found_or_rendered_witness:
  "files (posts_store [] []) (POSTS_FOLDER blog_env @ ''/'' @ ''does-not-exist'' @ ''.md'') =
     Inl ENOENT \<and>
   fst (getPost blog_env ''does-not-exist'' (posts_store [] [])) = Inl NEXT_NOT_FOUND \<and>
   files (posts_store [''hello.md''] [(''/app/_posts/hello.md'', Inr hello_md)])
     (POSTS_FOLDER blog_env @ ''/'' @ ''hello'' @ ''.md'') = Inr hello_md \<and>
   hello_md \<noteq> [] \<and>
   (\<exists>parsed. matter blog_env hello_md = Inr parsed \<and>
      process blog_env (use rehypeStringify (use remarkRehype (use remarkGfm
        (use remarkFrontmatter (use remarkParse unified))))) (content parsed) =
        Inr ''<p>there</p>'' \<and>
      fst (getPost blog_env ''hello''
        (posts_store [''hello.md''] [(''/app/_posts/hello.md'', Inr hello_md)])) =
        Inr \<lparr>postHTML = ''<p>there</p>'', postMeta = data parsed\<rparr>) \<and>
   files (posts_store [''broken.md''] [(''/app/_posts/broken.md'', Inr broken_md)])
     (POSTS_FOLDER blog_env @ ''/'' @ ''broken'' @ ''.md'') = Inr broken_md \<and>
   broken_md \<noteq> [] \<and>
   matter blog_env broken_md = Inl (YAMLException ''bad indentation of a mapping entry'') \<and>
   fst (getPost blog_env ''broken''
     (posts_store [''broken.md''] [(''/app/_posts/broken.md'', Inr broken_md)])) =
     Inl (YAMLException ''bad indentation of a mapping entry'')"
proof -
  let ?w0 = "posts_store [] []"
  let ?w1 = "posts_store [''hello.md''] [(''/app/_posts/hello.md'', Inr hello_md)]"
  let ?w2 = "posts_store [''broken.md''] [(''/app/_posts/broken.md'', Inr broken_md)]"
  let ?chain = "use rehypeStringify (use remarkRehype (use remarkGfm
        (use remarkFrontmatter (use remarkParse unified))))"
  let ?p = "\<lparr>data = [''title'' \<mapsto> JString ''Hello'', ''excerpt'' \<mapsto> JString ''E'',
                  ''author'' \<mapsto> JString ''A''],
          content = ''there''\<rparr>"
  have a0: "files ?w0 (POSTS_FOLDER blog_env @ ''/'' @ ''does-not-exist'' @ ''.md'') = Inl ENOENT"
    by (simp add: posts_store_def blog_env_def)
  have r0: "fst (getPost blog_env ''does-not-exist'' ?w0) = Inl NEXT_NOT_FOUND"
    using getPost_not_found_or_rendered [of ?w0 blog_env "''does-not-exist''" ENOENT] a0
    by blast
  have a1: "files ?w1 (POSTS_FOLDER blog_env @ ''/'' @ ''hello'' @ ''.md'') = Inr hello_md"
    by (simp add: posts_store_def blog_env_def)
  have b1: "hello_md \<noteq> []" by (simp add: hello_md_def)
  have c1: "matter blog_env hello_md = Inr ?p"
    by (simp add: blog_env_def matter_model_hello)
  have d1: "process blog_env ?chain (content ?p) = Inr ''<p>there</p>''"
    by (simp add: blog_env_def pipeline_attachers process_model_there)
  have r1: "fst (getPost blog_env ''hello'' ?w1) =
      Inr \<lparr>postHTML = ''<p>there</p>'', postMeta = data ?p\<rparr>"
    using getPost_not_found_or_rendered
      [of ?w1 blog_env "''hello''" _ hello_md ?p "''<p>there</p>''"] a1 b1 c1 d1
    by blast
  have a2: "files ?w2 (POSTS_FOLDER blog_env @ ''/'' @ ''broken'' @ ''.md'') = Inr broken_md"
    by (simp add: posts_store_def blog_env_def)
  have b2: "broken_md \<noteq> []" by (simp add: broken_md_def)
  have c2: "matter blog_env broken_md =
      Inl (YAMLException ''bad indentation of a mapping entry'')"
    by (simp add: blog_env_def matter_model_broken)
  have r2: "fst (getPost blog_env ''broken'' ?w2) =
      Inl (YAMLException ''bad indentation of a mapping entry'')"
    using getPost_not_found_or_rendered
      [of ?w2 blog_env "''broken''" _ broken_md _ _
         "YAMLException ''bad indentation of a mapping entry''"] a2 b2 c2
    by blast
  from a0 r0 a1 b1 c1 d1 r1 a2 b2 c2 r2 show ?thesis by blast
qed

text \<open>
  C5 as stated fails: for a file that is present and whose front-matter is not valid
  YAML, \<open>getPost\<close> neither signals not-found nor returns a value.
\<close>

theorem getPost_propagates_parse_error:
  "files (posts_store [''broken.md''] [(''/app/_posts/broken.md'', Inr broken_md)])
     (POSTS_FOLDER blog_env @ ''/'' @ ''broken'' @ ''.md'') = Inr broken_md \<and>
   fst (getPost blog_env ''broken''
     (posts_store [''broken.md''] [(''/app/_posts/broken.md'', Inr broken_md)])) =
   Inl (YAMLException ''bad indentation of a mapping entry'')"
proof -
  have "broken_md \<noteq> []" by (simp add: broken_md_def)
  then show ?thesis
    by (simp add: getPost_unfold posts_store_def blog_env_def matter_model_broken)
qed

text \<open>
  C7. The processor that \<open>getPost\<close> runs on the body has exactly five plugins attached,
  in this order: remark-parse (Markdown text to syntax tree), remark-frontmatter
  (front-matter fences), remark-gfm (the GitHub extensions), remark-rehype (Markdown
  tree to HTML tree), rehype-stringify (HTML tree to string).
\<close>

theorem getPost_runs_five_stages:
  assumes "files w (POSTS_FOLDER E @ ''/'' @ slug @ ''.md'') = Inr text"
    and "text \<noteq> []"
    and "matter E text = Inr parsed"
  shows "use rehypeStringify (use remarkRehype (use remarkGfm
           (use remarkFrontmatter (use remarkParse unified)))) =
         \<lparr>attachers = [remarkParse, remarkFrontmatter, remarkGfm, remarkRehype, rehypeStringify]\<rparr> \<and>
         fst (getPost E slug w) =
           (case process E
                   \<lparr>attachers = [remarkParse, remarkFrontmatter, remarkGfm, remarkRehype,
                      rehypeStringify]\<rparr> (content parsed) of
              Inl e \<Rightarrow> Inl e
            | Inr html \<Rightarrow> Inr \<lparr>postHTML = html, postMeta = data parsed\<rparr>)"
  using assms by (simp add: getPost_unfold pipeline_attachers)

theorem getPost_runs_five_stages_witness:
  "files (posts_store [''hello.md''] [(''/app/_posts/hello.md'', Inr hello_md)])
     (POSTS_FOLDER blog_env @ ''/'' @ ''hello'' @ ''.md'') = Inr hello_md \<and>
   hello_md \<noteq> [] \<and>
   (\<exists>parsed. matter blog_env hello_md = Inr parsed \<and> content parsed = ''there'' \<and>
      fst (getPost blog_env ''hello''
        (posts_store [''hello.md''] [(''/app/_posts/hello.md'', Inr hello_md)])) =
      Inr \<lparr>postHTML = ''<p>there</p>'', postMeta = data parsed\<rparr>)"
proof -
  let ?w = "posts_store [''hello.md''] [(''/app/_posts/hello.md'', Inr hello_md)]"
  let ?p = "\<lparr>data = [''title'' \<mapsto> JString ''Hello'', ''excerpt'' \<mapsto> JString ''E'',
                  ''author'' \<mapsto> JString ''A''],
          content = ''there''\<rparr>"
  have a: "files ?w (POSTS_FOLDER blog_env @ ''/'' @ ''hello'' @ ''.md'') = Inr hello_md"
    by (simp add: posts_store_def blog_env_def)
  have b: "hello_md \<noteq> []" by (simp add: hello_md_def)
  have c: "matter blog_env hello_md = Inr ?p"
    by (simp add: blog_env_def matter_model_hello)
  have d: "process blog_env
     \<lparr>attachers = [remarkParse, remarkFrontmatter, remarkGfm, remarkRehype, rehypeStringify]\<rparr>
     (content ?p) = Inr ''<p>there</p>''"
    by (simp add: blog_env_def process_model_there)
  from getPost_runs_five_stages [OF a b c] d
  have "fst (getPost blog_env ''hello'' ?w) =
      Inr \<lparr>postHTML = ''<p>there</p>'', postMeta = data ?p\<rparr>"
    by simp
  with a b c show ?thesis by simp
qed

text \<open>
  C8. The four public operations leave the answers of the file system as they were:
  they only add the reads they issue to the trace.
\<close>

theorem repository_reads_only:
  "dirs (snd (getPostSlugs E w)) = dirs w \<and> files (snd (getPostSlugs E w)) = files w \<and>
   dirs (snd (getPostMeta E slug w)) = dirs w \<and> files (snd (getPostMeta E slug w)) = files w \<and>
   dirs (snd (getPostList E w)) = dirs w \<and> files (snd (getPostList E w)) = files w \<and>
   dirs (snd (getPost E slug w)) = dirs w \<and> files (snd (getPost E slug w)) = files w"
  by (simp add: getPostSlugs_unfold getPostMeta_unfold getPost_unfold getPostList_unfold
      split: sum.splits)

text \<open>
  C9. When the front-matter of the file declares a key \<open>slug\<close>, the \<open>slug\<close> field of
  the result of \<open>getPostMeta\<close> is the declared value, not the argument.
\<close>

theorem front_matter_slug_overrides:
  assumes "files w (POSTS_FOLDER E @ ''/'' @ slug @ ''.md'') = Inr text"
    and "text \<noteq> []"
    and "matter E text = Inr parsed"
    and "data parsed ''slug'' = Some v"
  shows "\<exists>m. fst (getPostMeta E slug w) = Inr (Some m) \<and> m ''slug'' = Some v"
  using assms by (simp add: getPostMeta_unfold map_add_def)

theorem front_matter_slug_overrides_witness:
  "files (posts_store [''renamed.md''] [(''/app/_posts/renamed.md'', Inr renamed_md)])
     (POSTS_FOLDER blog_env @ ''/'' @ ''renamed'' @ ''.md'') = Inr renamed_md \<and>
   renamed_md \<noteq> [] \<and>
   (\<exists>parsed. matter blog_env renamed_md = Inr parsed \<and>
      data parsed ''slug'' = Some (JString ''custom'')) \<and>
   (\<exists>m. fst (getPostMeta blog_env ''renamed''
           (posts_store [''renamed.md''] [(''/app/_posts/renamed.md'', Inr renamed_md)])) =
         Inr (Some m) \<and>
        m ''slug'' = Some (JString ''custom'')) \<and>
   JString ''custom'' \<noteq> JString ''renamed''"
proof -
  let ?w = "posts_store [''renamed.md''] [(''/app/_posts/renamed.md'', Inr renamed_md)]"
  let ?p = "\<lparr>data = [''title'' \<mapsto> JString ''Hello'', ''slug'' \<mapsto> JString ''custom''],
          content = ''there''\<rparr>"
  have a: "files ?w (POSTS_FOLDER blog_env @ ''/'' @ ''renamed'' @ ''.md'') = Inr renamed_md"
    by (simp add: posts_store_def blog_env_def)
  have b: "renamed_md \<noteq> []" by (simp add: renamed_md_def)
  have c: "matter blog_env renamed_md = Inr ?p"
    by (simp add: blog_env_def matter_model_renamed)
  have d: "data ?p ''slug'' = Some (JString ''custom'')" by simp
  from front_matter_slug_overrides [OF a b c d] a b c d show ?thesis by blast
qed

text \<open>
  C10. \<open>getPostContent\<close> reads exactly the path made of \<open>POSTS_FOLDER\<close>, a slash, the
  slug as it was given and \<open>.md\<close>; the slug is not checked. So the slug \<open>../name\<close>
  makes it read \<open>name.md\<close> in the parent of the folder, which is outside the folder.
\<close>

theorem getPostContent_reads_concatenated_path:
  "getPostContent E slug w =
     ((case files w (POSTS_FOLDER E @ ''/'' @ slug @ ''.md'') of
         Inl e \<Rightarrow> None | Inr text \<Rightarrow> Some text),
      w\<lparr>trace := trace w @ [ReadFile (POSTS_FOLDER E @ ''/'' @ slug @ ''.md'')]\<rparr>) \<and>
   (CHR ''/'' \<notin> set name \<and> resolve (POSTS_FOLDER E) \<noteq> [] \<and>
    last (resolve (POSTS_FOLDER E)) \<noteq> name @ ''.md''
      \<longrightarrow> snd (getPostContent E (''../'' @ name) w) =
            w\<lparr>trace := trace w @ [ReadFile (POSTS_FOLDER E @ ''/../'' @ name @ ''.md'')]\<rparr> \<and>
          resolve (POSTS_FOLDER E @ ''/../'' @ name @ ''.md'') =
            butlast (resolve (POSTS_FOLDER E)) @ [name @ ''.md''] \<and>
          \<not> inside (POSTS_FOLDER E) (POSTS_FOLDER E @ ''/../'' @ name @ ''.md''))"
proof (intro conjI impI)
  show "getPostContent E slug w =
     ((case files w (POSTS_FOLDER E @ ''/'' @ slug @ ''.md'') of
         Inl e \<Rightarrow> None | Inr text \<Rightarrow> Some text),
      w\<lparr>trace := trace w @ [ReadFile (POSTS_FOLDER E @ ''/'' @ slug @ ''.md'')]\<rparr>)"
    by (rule getPostContent_unfold)
next
  show "snd (getPostContent E (''../'' @ name) w) =
      w\<lparr>trace := trace w @ [ReadFile (POSTS_FOLDER E @ ''/../'' @ name @ ''.md'')]\<rparr>"
    by (simp add: getPostContent_unfold)
next
  assume h: "CHR ''/'' \<notin> set name \<and> resolve (POSTS_FOLDER E) \<noteq> [] \<and>
    last (resolve (POSTS_FOLDER E)) \<noteq> name @ ''.md''"
  then have "CHR ''/'' \<notin> set name" by simp
  then show r: "resolve (POSTS_FOLDER E @ ''/../'' @ name @ ''.md'') =
      butlast (resolve (POSTS_FOLDER E)) @ [name @ ''.md'']"
    by (rule resolve_parent_sibling)
  from h have "\<not> prefix (resolve (POSTS_FOLDER E))
      (butlast (resolve (POSTS_FOLDER E)) @ [name @ ''.md''])"
    by (intro not_prefix_sibling) simp_all
  then show "\<not> inside (POSTS_FOLDER E) (POSTS_FOLDER E @ ''/../'' @ name @ ''.md'')"
    unfolding inside_def r .
qed

theorem getPostContent_reads_concatenated_path_witness:
  "CHR ''/'' \<notin> set ''secret'' \<and> resolve (POSTS_FOLDER blog_env) = [''app'', ''_posts''] \<and>
   last (resolve (POSTS_FOLDER blog_env)) \<noteq> ''secret'' @ ''.md'' \<and>
   snd (getPostContent blog_env (''../'' @ ''secret'') (posts_store [] [])) =
     (posts_store [] [])\<lparr>trace := [ReadFile ''/app/_posts/../secret.md'']\<rparr> \<and>
   resolve (''/app/_posts/../secret.md'') = [''app'', ''secret.md''] \<and>
   \<not> inside ''/app/_posts'' ''/app/_posts/../secret.md''"
proof -
  have a: "CHR ''/'' \<notin> set ''secret''" by simp
  have b: "resolve (POSTS_FOLDER blog_env) = [''app'', ''_posts'']"
    by (simp add: blog_env_def resolve_def resolve_segment_def)
  have c: "last (resolve (POSTS_FOLDER blog_env)) \<noteq> ''secret'' @ ''.md''"
    by (simp add: b)
  from b have b': "resolve (POSTS_FOLDER blog_env) \<noteq> []" by simp
  from getPostContent_reads_concatenated_path [of blog_env _ "posts_store [] []" "''secret''"]
    a b' c
  have "snd (getPostContent blog_env (''../'' @ ''secret'') (posts_store [] [])) =
            (posts_store [] [])\<lparr>trace := trace (posts_store [] []) @
               [ReadFile (POSTS_FOLDER blog_env @ ''/../'' @ ''secret'' @ ''.md'')]\<rparr> \<and>
          resolve (POSTS_FOLDER blog_env @ ''/../'' @ ''secret'' @ ''.md'') =
            butlast (resolve (POSTS_FOLDER blog_env)) @ [''secret'' @ ''.md''] \<and>
          \<not> inside (POSTS_FOLDER blog_env) (POSTS_FOLDER blog_env @ ''/../'' @ ''secret'' @ ''.md'')"
    by blast
  then have "snd (getPostContent blog_env (''../'' @ ''secret'') (posts_store [] [])) =
     (posts_store [] [])\<lparr>trace := [ReadFile ''/app/_posts/../secret.md'']\<rparr> \<and>
   resolve (''/app/_posts/../secret.md'') = [''app'', ''secret.md''] \<and>
   \<not> inside ''/app/_posts'' ''/app/_posts/../secret.md''"
    unfolding b by (simp add: blog_env_def posts_store_def)
  with a b c show ?thesis by blast
qed

end
